theory Spec2Isabelle
  imports Main "HOL-Library.Word"
begin

unbundle bit_operations_syntax

section \<open>Display-list commands (gbi\_nsp.h)\<close>

text \<open>
  A \<^verbatim>\<open>Gfx\<close> is the two-word command of the header. Pointers (\<^verbatim>\<open>Gfx*\<close>,
  \<^verbatim>\<open>void*\<close>, \<^verbatim>\<open>uintptr_t\<close>) are 32-bit words, as on the ARM target of the port;
  \<^verbatim>\<open>dl + 1\<close> on a \<^verbatim>\<open>Gfx*\<close> is the address plus \<^verbatim>\<open>sizeof(Gfx) = 8\<close>.
  The memory the walker reads is a function from addresses to commands: the source
  dereferences its cursor without any check, so every address can be read.
\<close>

record Gfx =
  w0 :: "32 word"
  w1 :: "32 word"

type_synonym ptr = "32 word"
type_synonym memory = "ptr \<Rightarrow> Gfx"

definition G_SPNOOP :: "8 word" where "G_SPNOOP = 0x00"
definition G_MTX :: "8 word" where "G_MTX = 0x01"
definition G_MOVEMEM :: "8 word" where "G_MOVEMEM = 0x03"
definition G_VTX :: "8 word" where "G_VTX = 0x04"
definition G_DL :: "8 word" where "G_DL = 0x06"
definition G_TRI2 :: "8 word" where "G_TRI2 = 0x09"
definition G_TRI1 :: "8 word" where "G_TRI1 = 0x0C"
definition G_ENDDL :: "8 word" where "G_ENDDL = 0xDF"
definition G_SETOTHERMODE_L :: "8 word" where "G_SETOTHERMODE_L = 0xE2"
definition G_SETOTHERMODE_H :: "8 word" where "G_SETOTHERMODE_H = 0xE3"
definition G_TEXRECT :: "8 word" where "G_TEXRECT = 0xE4"
definition G_SETCIMG :: "8 word" where "G_SETCIMG = 0xFF"
definition G_SETZIMG :: "8 word" where "G_SETZIMG = 0xFE"
definition G_SETTIMG :: "8 word" where "G_SETTIMG = 0xFD"
definition G_SETCOMBINE :: "8 word" where "G_SETCOMBINE = 0xFC"
definition G_SETENVCOLOR :: "8 word" where "G_SETENVCOLOR = 0xFB"
definition G_SETPRIMCOLOR :: "8 word" where "G_SETPRIMCOLOR = 0xFA"
definition G_SETFOGCOLOR :: "8 word" where "G_SETFOGCOLOR = 0xF8"
definition G_SETFILLCOLOR :: "8 word" where "G_SETFILLCOLOR = 0xF7"
definition G_FILLRECT :: "8 word" where "G_FILLRECT = 0xF6"
definition G_SETTILE :: "8 word" where "G_SETTILE = 0xF5"
definition G_LOADTILE :: "8 word" where "G_LOADTILE = 0xF4"
definition G_LOADBLOCK :: "8 word" where "G_LOADBLOCK = 0xF3"
definition G_SETTILESIZE :: "8 word" where "G_SETTILESIZE = 0xF2"
definition G_LOADTLUT :: "8 word" where "G_LOADTLUT = 0xF0"
definition G_RDPSETOTHERMODE :: "8 word" where "G_RDPSETOTHERMODE = 0xEF"
definition G_SETSCISSOR :: "8 word" where "G_SETSCISSOR = 0xED"
definition G_RDPFULLSYNC :: "8 word" where "G_RDPFULLSYNC = 0xE9"
definition G_RDPTILESYNC :: "8 word" where "G_RDPTILESYNC = 0xE8"
definition G_RDPPIPESYNC :: "8 word" where "G_RDPPIPESYNC = 0xE7"
definition G_RDPLOADSYNC :: "8 word" where "G_RDPLOADSYNC = 0xE6"
definition G_NOOP :: "8 word" where "G_NOOP = 0xC0"
definition G_POPMTX :: "8 word" where "G_POPMTX = 0xD8"
definition G_GEOMETRYMODE :: "8 word" where "G_GEOMETRYMODE = 0xD9"
definition G_TEXTURE :: "8 word" where "G_TEXTURE = 0xD7"
definition G_MW_SEGMENT :: "8 word" where "G_MW_SEGMENT = 0x06"

text \<open>
  The builder macros write one command at \<^verbatim>\<open>pkt\<close> and advance \<^verbatim>\<open>pkt\<close> by one;
  the model gives the command written. \<^verbatim>\<open>gSPSegment\<close> does not use its \<^verbatim>\<open>seg\<close>
  argument, \<^verbatim>\<open>gSP1Triangle\<close> does not use its \<^verbatim>\<open>flag\<close>, and \<^verbatim>\<open>gSPBranchList\<close> is
  defined as \<^verbatim>\<open>gSPDisplayList\<close>.
\<close>

definition gSPDisplayList :: "ptr \<Rightarrow> Gfx" where
  "gSPDisplayList child = \<lparr>w0 = push_bit 24 (ucast G_DL), w1 = child\<rparr>"

definition gSPEndDisplayList :: Gfx where
  "gSPEndDisplayList = \<lparr>w0 = push_bit 24 (ucast G_ENDDL), w1 = 0\<rparr>"

definition gSPSegment :: "32 word \<Rightarrow> ptr \<Rightarrow> Gfx" where
  "gSPSegment seg base = \<lparr>w0 = push_bit 24 (ucast G_MOVEMEM), w1 = base\<rparr>"

definition gSPBranchList :: "ptr \<Rightarrow> Gfx" where
  "gSPBranchList child = gSPDisplayList child"

definition gSPVertex :: "ptr \<Rightarrow> 32 word \<Rightarrow> 32 word \<Rightarrow> Gfx" where
  "gSPVertex vtx n v0 =
     \<lparr>w0 = push_bit 24 (ucast G_VTX) OR push_bit 12 n OR push_bit 1 (v0 + n), w1 = vtx\<rparr>"

definition gSP1Triangle :: "32 word \<Rightarrow> 32 word \<Rightarrow> 32 word \<Rightarrow> 32 word \<Rightarrow> Gfx" where
  "gSP1Triangle v0 v1 v2 flag =
     \<lparr>w0 = push_bit 24 (ucast G_TRI1) OR push_bit 16 (v0 * 2) OR push_bit 8 (v1 * 2) OR v2 * 2,
      w1 = 0\<rparr>"

section \<open>Segment table\<close>

text \<open>
  \<^verbatim>\<open>static uintptr_t nsp_segments[16]\<close>: sixteen base addresses. The index type
  \<open>4 word\<close> has exactly the sixteen indices of the array.
\<close>

type_synonym segment_table = "4 word \<Rightarrow> 32 word"

definition nsp_set_segment :: "32 word \<Rightarrow> ptr \<Rightarrow> segment_table \<Rightarrow> segment_table" where
  "nsp_set_segment seg addr segs = segs(ucast (seg AND 0xF) := addr)"

text \<open>The resolver of the explicit-stack platform file (it tests the entry against zero).\<close>

definition nsp_segmented_to_virtual :: "segment_table \<Rightarrow> 32 word \<Rightarrow> ptr" where
  "nsp_segmented_to_virtual segs addr =
     (let seg = drop_bit 24 addr AND 0xF;
          offset = addr AND 0x00FFFFFF
      in if segs (ucast seg) = 0 then offset else segs (ucast seg) + offset)"

text \<open>The resolver of \<^verbatim>\<open>src/nspire/platform/main_nsp.c\<close> (it always adds the entry).\<close>

definition nsp_segmented_to_virtual_uncond :: "segment_table \<Rightarrow> 32 word \<Rightarrow> ptr" where
  "nsp_segmented_to_virtual_uncond segs addr =
     (let seg = drop_bit 24 addr AND 0xF;
          offset = addr AND 0x00FFFFFF
      in segs (ucast seg) + offset)"

section \<open>Call stack\<close>

text \<open>
  The globals of the platform file: the segment table, the array \<^verbatim>\<open>dl_stack\<close> of
  \<^verbatim>\<open>DL_STACK_SIZE\<close> saved cursors and its fill index \<^verbatim>\<open>dl_stack_top\<close> (a C
  \<^verbatim>\<open>int\<close>). \<open>gfx_submitted\<close> stands for the frame the external renderer back
  end accumulates (the commands handed to it); the walker contains no call into the
  renderer, so no operation below writes it.
\<close>

record globals =
  nsp_segments :: segment_table
  dl_stack :: "ptr list"
  dl_stack_top :: int
  gfx_submitted :: "Gfx list"

definition DL_STACK_SIZE :: int where "DL_STACK_SIZE = 16"

definition dl_push :: "ptr \<Rightarrow> globals \<Rightarrow> globals" where
  "dl_push p g =
     (if dl_stack_top g < DL_STACK_SIZE
      then g\<lparr>dl_stack := (dl_stack g)[nat (dl_stack_top g) := p],
             dl_stack_top := dl_stack_top g + 1\<rparr>
      else g)"

text \<open>
  \<^verbatim>\<open>dl_pop\<close> returns the popped pointer, or \<^verbatim>\<open>NULL\<close> (0) when nothing is saved. The
  array accesses of both functions are at the index \<open>nat (dl_stack_top g)\<close> and one
  below it; that these lie inside the 16 slots is the invariant \<open>stack_ok\<close> proved
  for the walker further down.
\<close>

definition dl_pop :: "globals \<Rightarrow> ptr \<times> globals" where
  "dl_pop g =
     (if dl_stack_top g > 0
      then (dl_stack g ! nat (dl_stack_top g - 1), g\<lparr>dl_stack_top := dl_stack_top g - 1\<rparr>)
      else (0, g))"

section \<open>The walker\<close>

definition cmd_of :: "Gfx \<Rightarrow> 8 word" where
  "cmd_of c = ucast (drop_bit 24 (w0 c) AND 0xFF)"

text \<open>The case labels of the pass-through group and of the sync group of the switch.\<close>

definition render_cmds :: "8 word list" where
  "render_cmds =
     [G_VTX, G_TRI1, G_TRI2, G_MTX, G_POPMTX, G_GEOMETRYMODE, G_TEXTURE, G_SETCOMBINE,
      G_SETTIMG, G_SETTILE, G_SETTILESIZE, G_LOADBLOCK, G_LOADTILE, G_LOADTLUT,
      G_SETSCISSOR, G_SETENVCOLOR, G_SETPRIMCOLOR, G_SETFOGCOLOR, G_SETFILLCOLOR,
      G_FILLRECT, G_SETCIMG, G_SETZIMG, G_RDPSETOTHERMODE, G_SETOTHERMODE_L,
      G_SETOTHERMODE_H, G_TEXRECT]"

definition sync_cmds :: "8 word list" where
  "sync_cmds =
     [G_RDPPIPESYNC, G_RDPTILESYNC, G_RDPLOADSYNC, G_RDPFULLSYNC, G_SPNOOP, G_NOOP]"

text \<open>
  One iteration of \<^verbatim>\<open>while (1)\<close> in \<^verbatim>\<open>nsp_process_display_list\<close>, at cursor
  \<open>dl\<close>: either the function returns, or the loop goes on at a new cursor.
\<close>

datatype outcome = Return globals | Continue ptr globals

definition step :: "memory \<Rightarrow> ptr \<Rightarrow> globals \<Rightarrow> outcome" where
  "step mem dl g =
     (let c = mem dl;
          cmd = cmd_of c
      in if cmd = G_ENDDL then
           (case dl_pop g of (parent, g') \<Rightarrow>
              if parent \<noteq> 0 then Continue parent g' else Return g')
         else if cmd = G_DL then
           (let child = w1 c
            in if child \<noteq> 0 then
                 (let is_branch = (w0 c AND 0x00FF0000 = 0x00010000)
                  in Continue child (if \<not> is_branch then dl_push (dl + 8) g else g))
               else Continue (dl + 8) g)
         else if cmd = G_MOVEMEM then
           (let index = (ucast (drop_bit 8 (w0 c) AND 0xFF) :: 8 word);
                offset = (ucast (w0 c AND 0xFF) :: 8 word)
            in if index = G_MW_SEGMENT then
                 (let seg_id = (ucast offset :: 32 word) div 4
                  in Continue (dl + 8)
                       (g\<lparr>nsp_segments := nsp_set_segment seg_id (w1 c) (nsp_segments g)\<rparr>))
               else Continue (dl + 8) g)
         else if cmd \<in> set render_cmds then Continue (dl + 8) g
         else if cmd \<in> set sync_cmds then Continue (dl + 8) g
         else Continue (dl + 8) g)"

text \<open>
  The loop has no counter and no exit other than \<^verbatim>\<open>return\<close>, so it is a partial
  function: \<open>None\<close> is a walk that never returns.
\<close>

partial_function (option) walk :: "memory \<Rightarrow> ptr \<Rightarrow> globals \<Rightarrow> globals option" where
  "walk mem dl g =
     (case step mem dl g of
        Return g' \<Rightarrow> Some g'
      | Continue dl' g' \<Rightarrow> walk mem dl' g')"

definition nsp_process_display_list :: "memory \<Rightarrow> ptr \<Rightarrow> globals \<Rightarrow> globals option" where
  "nsp_process_display_list mem dl g =
     (if dl = 0 then Some g else walk mem dl (g\<lparr>dl_stack_top := 0\<rparr>))"

text \<open>
  The first \<open>n\<close> iterations of the loop: \<open>Continue dl' g'\<close> when it is still running
  after \<open>n\<close> iterations, \<open>Return g'\<close> when it has returned within them.
\<close>

fun steps :: "memory \<Rightarrow> nat \<Rightarrow> ptr \<Rightarrow> globals \<Rightarrow> outcome" where
  "steps mem 0 dl g = Continue dl g"
| "steps mem (Suc n) dl g =
     (case step mem dl g of
        Return g' \<Rightarrow> Return g'
      | Continue dl' g' \<Rightarrow> steps mem n dl' g')"

text \<open>The cursors of the commands read in the first \<open>n\<close> iterations, in order.\<close>

fun visited :: "memory \<Rightarrow> nat \<Rightarrow> ptr \<Rightarrow> globals \<Rightarrow> ptr list" where
  "visited mem 0 dl g = []"
| "visited mem (Suc n) dl g =
     dl # (case step mem dl g of
             Return g' \<Rightarrow> []
           | Continue dl' g' \<Rightarrow> visited mem n dl' g')"

definition globals_of :: "outcome \<Rightarrow> globals" where
  "globals_of r = (case r of Return g \<Rightarrow> g | Continue dl g \<Rightarrow> g)"

text \<open>The zero-initialised statics at program start.\<close>

definition boot :: globals where
  "boot = \<lparr>nsp_segments = (\<lambda>_. 0), dl_stack = replicate 16 0, dl_stack_top = 0,
           gfx_submitted = []\<rparr>"

section \<open>Decoding helpers and example streams\<close>

text \<open>
  The table entry a command overwrites when the walker reads it: the \<^verbatim>\<open>G_MOVEMEM\<close>
  case with index \<^verbatim>\<open>G_MW_SEGMENT\<close> calls \<^verbatim>\<open>nsp_set_segment(offset / 4, w1)\<close>, which
  masks the id to four bits. Every other command overwrites none.
\<close>

definition segment_set_id :: "Gfx \<Rightarrow> 4 word option" where
  "segment_set_id c =
     (if cmd_of c = G_MOVEMEM \<and> (ucast (drop_bit 8 (w0 c) AND 0xFF) :: 8 word) = G_MW_SEGMENT
      then Some (ucast (((ucast (ucast (w0 c AND 0xFF) :: 8 word) :: 32 word) div 4) AND 0xF))
      else None)"

text \<open>
  The header has no builder that sets the branch flag; this is a \<^verbatim>\<open>G_DL\<close> command
  whose bits 16..23 hold the value 1 that the walker tests for.
\<close>

definition dl_branch :: "ptr \<Rightarrow> Gfx" where
  "dl_branch target = \<lparr>w0 = push_bit 24 (ucast G_DL) OR 0x00010000, w1 = target\<rparr>"

definition gDPNoOp :: Gfx where
  "gDPNoOp = \<lparr>w0 = 0, w1 = 0\<rparr>"

text \<open>Two streams that branch to each other: A at 0x1000, B at 0x2000.\<close>

definition cycle_stream :: memory where
  "cycle_stream = (\<lambda>_. gDPNoOp)(0x1000 := dl_branch 0x2000, 0x2000 := dl_branch 0x1000)"

text \<open>The stream that is a single end command, at 0x100.\<close>

definition end_stream :: memory where
  "end_stream = (\<lambda>_. gDPNoOp)(0x100 := gSPEndDisplayList)"

text \<open>The stream \<^verbatim>\<open>[RENDER(a), RENDER(b), END]\<close> at 0x100: a triangle, a vertex load, the end.\<close>

definition render_stream :: memory where
  "render_stream = (\<lambda>_. gDPNoOp)
     (0x100 := gSP1Triangle 0 1 2 0, 0x108 := gSPVertex 0x2000 3 0, 0x110 := gSPEndDisplayList)"

text \<open>The stream built by \<^verbatim>\<open>gSPSegment(pkt, 1, 0x1000); gSPEndDisplayList(pkt)\<close> at 0x100.\<close>

definition segment_stream :: memory where
  "segment_stream = (\<lambda>_. gDPNoOp)(0x100 := gSPSegment 1 0x1000, 0x108 := gSPEndDisplayList)"

text \<open>
  A parent at 0x100 built by \<^verbatim>\<open>gSPBranchList(pkt, child)\<close>, a triangle and the end; the
  child at 0x200 is a single end command.
\<close>

definition branch_list_stream :: memory where
  "branch_list_stream = (\<lambda>_. gDPNoOp)
     (0x100 := gSPBranchList 0x200, 0x108 := gSP1Triangle 0 1 2 0, 0x110 := gSPEndDisplayList,
      0x200 := gSPEndDisplayList)"

text \<open>
  The parent \<^verbatim>\<open>[CALL(child), RENDER(y), END]\<close> at 0x100 with the child
  \<^verbatim>\<open>[RENDER(x), END]\<close> at 0x200 (x a vertex load, y a triangle).
\<close>

definition nested_stream :: memory where
  "nested_stream = (\<lambda>_. gDPNoOp)
     (0x100 := gSPDisplayList 0x200, 0x108 := gSP1Triangle 0 1 2 0, 0x110 := gSPEndDisplayList,
      0x200 := gSPVertex 0x2000 3 0, 0x208 := gSPEndDisplayList)"

text \<open>
  A call whose target word is the segmented address (segment 1, offset 0x20), read with
  sixteen cursors already saved and table entry 1 set to 0x1000.
\<close>

definition call_stream :: memory where
  "call_stream = (\<lambda>_. gDPNoOp)(0x100 := gSPDisplayList 0x01000020)"

definition deep_globals :: globals where
  "deep_globals = \<lparr>nsp_segments = nsp_set_segment 1 0x1000 (\<lambda>_. 0),
                    dl_stack = replicate 16 0x500, dl_stack_top = 16, gfx_submitted = []\<rparr>"

text \<open>
  A branch with a null target in front of a triangle and the end command, and a branch
  at 0x100 to the child \<^verbatim>\<open>[RENDER(x), END]\<close> at 0x200.
\<close>

definition null_branch_stream :: memory where
  "null_branch_stream = (\<lambda>_. gDPNoOp)
     (0x100 := dl_branch 0, 0x108 := gSP1Triangle 0 1 2 0, 0x110 := gSPEndDisplayList)"

definition branch_stream :: memory where
  "branch_stream = (\<lambda>_. gDPNoOp)
     (0x100 := dl_branch 0x200, 0x108 := gSP1Triangle 0 1 2 0, 0x110 := gSPEndDisplayList,
      0x200 := gSPVertex 0x2000 3 0, 0x208 := gSPEndDisplayList)"

text \<open>
  A \<^verbatim>\<open>G_MOVEMEM\<close> command with index \<^verbatim>\<open>G_MW_SEGMENT\<close> and offset 8 (segment 2) and
  base 0x4000, then the end command; and the boot globals with table entry 1 set to
  0x1000.
\<close>

definition set_stream :: memory where
  "set_stream = (\<lambda>_. gDPNoOp)
     (0x100 := \<lparr>w0 = 0x03000608, w1 = 0x4000\<rparr>, 0x108 := gSPEndDisplayList)"

definition seg1_globals :: globals where
  "seg1_globals = boot\<lparr>nsp_segments := nsp_set_segment 1 0x1000 (\<lambda>_. 0)\<rparr>"




section \<open>The recursive walker of \<^verbatim>\<open>src/nspire/platform/main_nsp.c\<close>\<close>

text \<open>
  This variant keeps no stack of its own: it calls itself on a non-null child, returns
  after a branch and goes on after a call. It writes no global (\<^verbatim>\<open>G_MOVEMEM\<close> is one of
  its pass-through cases), so its result is only whether it returns. \<open>walk_rec\<close> is the
  loop at a cursor; the null test is made once, on entry, and a child is entered only
  when it is not null.
\<close>

partial_function (option) walk_rec :: "memory \<Rightarrow> ptr \<Rightarrow> unit option" where
  "walk_rec mem dl =
     (if cmd_of (mem dl) = G_ENDDL then Some ()
      else if cmd_of (mem dl) = G_DL then
        Option.bind (if w1 (mem dl) \<noteq> 0 then walk_rec mem (w1 (mem dl)) else Some ())
          (\<lambda>_. if w0 (mem dl) AND 0x00FF0000 = 0x00010000 then Some ()
                else walk_rec mem (dl + 8))
      else if cmd_of (mem dl) \<in> set (render_cmds @ [G_MOVEMEM]) then walk_rec mem (dl + 8)
      else if cmd_of (mem dl) \<in> set sync_cmds then walk_rec mem (dl + 8)
      else walk_rec mem (dl + 8))"

definition nsp_process_display_list_rec :: "memory \<Rightarrow> ptr \<Rightarrow> unit option" where
  "nsp_process_display_list_rec mem dl = (if dl = 0 then Some () else walk_rec mem dl)"

section \<open>Properties\<close>

lemmas gbi_opcodes =
  G_SPNOOP_def G_MTX_def G_MOVEMEM_def G_VTX_def G_DL_def G_TRI2_def G_TRI1_def
  G_ENDDL_def G_SETOTHERMODE_L_def G_SETOTHERMODE_H_def G_TEXRECT_def G_SETCIMG_def
  G_SETZIMG_def G_SETTIMG_def G_SETCOMBINE_def G_SETENVCOLOR_def G_SETPRIMCOLOR_def
  G_SETFOGCOLOR_def G_SETFILLCOLOR_def G_FILLRECT_def G_SETTILE_def G_LOADTILE_def
  G_LOADBLOCK_def G_SETTILESIZE_def G_LOADTLUT_def G_RDPSETOTHERMODE_def
  G_SETSCISSOR_def G_RDPFULLSYNC_def G_RDPTILESYNC_def G_RDPPIPESYNC_def
  G_RDPLOADSYNC_def G_NOOP_def G_POPMTX_def G_GEOMETRYMODE_def G_TEXTURE_def
  G_MW_SEGMENT_def


subsection \<open>One iteration, by kind of command\<close>

lemma render_not_control:
  "c \<in> set render_cmds \<Longrightarrow> c \<noteq> G_ENDDL \<and> c \<noteq> G_DL \<and> c \<noteq> G_MOVEMEM"
  by (auto simp: render_cmds_def gbi_opcodes)

lemma step_enddl:
  "cmd_of (mem dl) = G_ENDDL \<Longrightarrow>
   step mem dl g = (if fst (dl_pop g) \<noteq> 0 then Continue (fst (dl_pop g)) (snd (dl_pop g))
                    else Return (snd (dl_pop g)))"
  by (simp add: step_def Let_def split: prod.splits)

lemma step_call:
  "cmd_of (mem dl) = G_DL \<Longrightarrow> w1 (mem dl) \<noteq> 0 \<Longrightarrow>
   w0 (mem dl) AND 0x00FF0000 \<noteq> 0x00010000 \<Longrightarrow>
   step mem dl g = Continue (w1 (mem dl)) (dl_push (dl + 8) g)"
  by (simp add: step_def Let_def gbi_opcodes)

lemma step_branch:
  "cmd_of (mem dl) = G_DL \<Longrightarrow> w1 (mem dl) \<noteq> 0 \<Longrightarrow>
   w0 (mem dl) AND 0x00FF0000 = 0x00010000 \<Longrightarrow>
   step mem dl g = Continue (w1 (mem dl)) g"
  by (simp add: step_def Let_def gbi_opcodes)

lemma step_dl_null:
  "cmd_of (mem dl) = G_DL \<Longrightarrow> w1 (mem dl) = 0 \<Longrightarrow> step mem dl g = Continue (dl + 8) g"
  by (simp add: step_def Let_def gbi_opcodes)

lemma step_render:
  "cmd_of (mem dl) \<in> set render_cmds \<Longrightarrow> step mem dl g = Continue (dl + 8) g"
  using render_not_control [of "cmd_of (mem dl)"] by (simp add: step_def Let_def)

lemma step_plain:
  "cmd_of (mem dl) \<noteq> G_ENDDL \<Longrightarrow> cmd_of (mem dl) \<noteq> G_DL \<Longrightarrow>
   step mem dl g = Continue (dl + 8)
     (case segment_set_id (mem dl) of None \<Rightarrow> g
      | Some i \<Rightarrow> g\<lparr>nsp_segments := (nsp_segments g)(i := w1 (mem dl))\<rparr>)"
  by (simp add: step_def Let_def segment_set_id_def nsp_set_segment_def)

lemma step_Return_enddl:
  assumes "step mem dl g = Return g'"
  shows "cmd_of (mem dl) = G_ENDDL \<and> fst (dl_pop g) = 0 \<and> g' = snd (dl_pop g)"
proof -
  consider (e) "cmd_of (mem dl) = G_ENDDL"
    | (null) "cmd_of (mem dl) = G_DL" "w1 (mem dl) = 0"
    | (branch) "cmd_of (mem dl) = G_DL" "w1 (mem dl) \<noteq> 0"
        "w0 (mem dl) AND 0x00FF0000 = 0x00010000"
    | (call) "cmd_of (mem dl) = G_DL" "w1 (mem dl) \<noteq> 0"
        "w0 (mem dl) AND 0x00FF0000 \<noteq> 0x00010000"
    | (plain) "cmd_of (mem dl) \<noteq> G_ENDDL" "cmd_of (mem dl) \<noteq> G_DL"
    by blast
  then show ?thesis
  proof cases
    case e
    with assms show ?thesis
      by (simp add: step_enddl split: if_splits)
  next
    case null
    with assms show ?thesis
      by (simp add: step_dl_null)
  next
    case branch
    with assms show ?thesis
      by (simp add: step_branch)
  next
    case call
    with assms show ?thesis
      by (simp add: step_call)
  next
    case plain
    with assms show ?thesis
      by (simp add: step_plain)
  qed
qed

subsection \<open>Push and pop\<close>

lemma dl_push_below:
  assumes "0 \<le> dl_stack_top g" "dl_stack_top g < DL_STACK_SIZE" "length (dl_stack g) = 16"
  shows "dl_stack_top (dl_push p g) = dl_stack_top g + 1"
    and "length (dl_stack (dl_push p g)) = 16"
    and "dl_stack (dl_push p g) ! nat (dl_stack_top g) = p"
  using assms by (simp_all add: dl_push_def DL_STACK_SIZE_def)

lemma dl_pop_push:
  assumes "0 \<le> dl_stack_top g" "dl_stack_top g < DL_STACK_SIZE" "length (dl_stack g) = 16"
  shows "dl_pop (dl_push p g) = (p, g\<lparr>dl_stack := (dl_stack g)[nat (dl_stack_top g) := p]\<rparr>)"
  using assms by (simp add: dl_push_def dl_pop_def DL_STACK_SIZE_def)

lemma dl_push_full: "DL_STACK_SIZE \<le> dl_stack_top g \<Longrightarrow> dl_push p g = g"
  by (simp add: dl_push_def)

lemma dl_pop_empty: "dl_stack_top g \<le> 0 \<Longrightarrow> dl_pop g = (0, g)"
  by (simp add: dl_pop_def)

lemma step_enddl_empty:
  "cmd_of (mem dl) = G_ENDDL \<Longrightarrow> dl_stack_top g \<le> 0 \<Longrightarrow> step mem dl g = Return g"
  by (simp add: step_enddl dl_pop_empty)

lemma step_enddl_after_push:
  assumes "cmd_of (mem e) = G_ENDDL" "p \<noteq> 0"
    "0 \<le> dl_stack_top g" "dl_stack_top g < DL_STACK_SIZE" "length (dl_stack g) = 16"
  shows "step mem e (dl_push p g)
           = Continue p (g\<lparr>dl_stack := (dl_stack g)[nat (dl_stack_top g) := p]\<rparr>)"
  using assms by (simp add: step_enddl dl_pop_push)

lemma boot_top [simp]: "boot\<lparr>dl_stack_top := 0\<rparr> = boot"
  by (simp add: boot_def)

lemmas stream_eval = step_def cmd_of_def gbi_opcodes Let_def dl_pop_def dl_push_def
  gSPEndDisplayList_def gSP1Triangle_def gSPVertex_def gSPSegment_def gSPBranchList_def
  gSPDisplayList_def gDPNoOp_def dl_branch_def DL_STACK_SIZE_def render_cmds_def
  sync_cmds_def nsp_set_segment_def

subsection \<open>The loop and its bounded unfoldings\<close>

lemma steps_add:
  "steps mem (m + n) dl g =
     (case steps mem m dl g of Return r \<Rightarrow> Return r | Continue dl' g' \<Rightarrow> steps mem n dl' g')"
  by (induction m arbitrary: dl g) (auto split: outcome.splits)

lemma steps_Return_walk: "steps mem n dl g = Return g' \<Longrightarrow> walk mem dl g = Some g'"
proof (induction n arbitrary: dl g)
  case 0
  then show ?case by simp
next
  case (Suc n)
  then show ?case
    by (subst walk.simps) (auto split: outcome.splits)
qed

lemma walk_Some_steps:
  assumes "walk mem dl g = Some g'"
  shows "\<exists>n. steps mem n dl g = Return g'"
proof (rule walk.raw_induct
    [where P = "\<lambda>mem dl g g'. \<exists>n. steps mem n dl g = Return g'", OF _ assms], goal_cases)
  case (1 walk' mem dl g g')
  show ?case
  proof (cases "step mem dl g")
    case (Return r)
    with 1(2) have "steps mem (Suc 0) dl g = Return g'"
      by simp
    then show ?thesis by blast
  next
    case (Continue dl' r)
    with 1(2) have "walk' mem dl' r = Some g'"
      by simp
    then obtain n where "steps mem n dl' r = Return g'"
      using 1(1) by blast
    with Continue have "steps mem (Suc n) dl g = Return g'"
      by simp
    then show ?thesis by blast
  qed
qed

lemma walk_Some_iff: "walk mem dl g = Some g' \<longleftrightarrow> (\<exists>n. steps mem n dl g = Return g')"
  using steps_Return_walk walk_Some_steps by blast

subsection \<open>Invariants of the loop\<close>





lemma step_frame:
  "segment_set_id (mem dl) \<noteq> Some i \<Longrightarrow>
   nsp_segments (globals_of (step mem dl g)) i = nsp_segments g i"
  by (auto simp: step_def Let_def globals_of_def dl_push_def dl_pop_def segment_set_id_def
      nsp_set_segment_def split: prod.splits if_splits)

lemma steps_frame:
  "\<forall>p \<in> set (visited mem n dl g). segment_set_id (mem p) \<noteq> Some i \<Longrightarrow>
   nsp_segments (globals_of (steps mem n dl g)) i = nsp_segments g i"
proof (induction n arbitrary: dl g)
  case 0
  then show ?case by (simp add: globals_of_def)
next
  case (Suc n)
  from Suc.prems have here: "segment_set_id (mem dl) \<noteq> Some i"
    by simp
  show ?case
  proof (cases "step mem dl g")
    case (Return r)
    with step_frame [of mem dl i g] here show ?thesis
      by (simp add: globals_of_def)
  next
    case (Continue dl' r)
    with step_frame [of mem dl i g] here have r: "nsp_segments r i = nsp_segments g i"
      by (simp add: globals_of_def)
    from Suc.prems Continue have "\<forall>p \<in> set (visited mem n dl' r). segment_set_id (mem p) \<noteq> Some i"
      by simp
    from Suc.IH [OF this] Continue r show ?thesis
      by simp
  qed
qed


lemma plain_run:
  assumes "\<forall>i<k. cmd_of (mem (c + 8 * of_nat i)) \<noteq> G_ENDDL
               \<and> cmd_of (mem (c + 8 * of_nat i)) \<noteq> G_DL"
  shows "\<exists>g'. steps mem k c g = Continue (c + 8 * of_nat k) g'
            \<and> dl_stack g' = dl_stack g \<and> dl_stack_top g' = dl_stack_top g
            \<and> gfx_submitted g' = gfx_submitted g"
  using assms
proof (induction k arbitrary: c g)
  case 0
  then show ?case by simp
next
  case (Suc k)
  from Suc.prems have c0: "cmd_of (mem c) \<noteq> G_ENDDL" "cmd_of (mem c) \<noteq> G_DL"
    by force+
  let ?g1 = "case segment_set_id (mem c) of None \<Rightarrow> g
      | Some i \<Rightarrow> g\<lparr>nsp_segments := (nsp_segments g)(i := w1 (mem c))\<rparr>"
  have s: "step mem c g = Continue (c + 8) ?g1"
    using c0 by (rule step_plain)
  have g1: "dl_stack ?g1 = dl_stack g" "dl_stack_top ?g1 = dl_stack_top g"
    "gfx_submitted ?g1 = gfx_submitted g"
    by (simp_all split: option.splits)
  have "\<forall>i<k. cmd_of (mem (c + 8 + 8 * of_nat i)) \<noteq> G_ENDDL
             \<and> cmd_of (mem (c + 8 + 8 * of_nat i)) \<noteq> G_DL"
  proof (intro allI impI)
    fix i
    assume "i < k"
    then have "Suc i < Suc k"
      by simp
    with Suc.prems have "cmd_of (mem (c + 8 * of_nat (Suc i))) \<noteq> G_ENDDL
        \<and> cmd_of (mem (c + 8 * of_nat (Suc i))) \<noteq> G_DL"
      by blast
    moreover have "c + 8 * of_nat (Suc i) = c + 8 + 8 * of_nat i"
      by (simp add: algebra_simps)
    ultimately show "cmd_of (mem (c + 8 + 8 * of_nat i)) \<noteq> G_ENDDL
        \<and> cmd_of (mem (c + 8 + 8 * of_nat i)) \<noteq> G_DL"
      by (simp add: add.assoc)
  qed
  from Suc.IH [OF this, of ?g1] obtain g' where
    g': "steps mem k (c + 8) ?g1 = Continue (c + 8 + 8 * of_nat k) g'"
      "dl_stack g' = dl_stack ?g1" "dl_stack_top g' = dl_stack_top ?g1"
      "gfx_submitted g' = gfx_submitted ?g1"
    by blast
  have "c + 8 + 8 * of_nat k = c + 8 * of_nat (Suc k)"
    by (simp add: algebra_simps)
  with g' s g1 show ?case
    by simp
qed

subsection \<open>Termination\<close>

lemma cycle_step_A: "step cycle_stream 0x1000 g = Continue 0x2000 g"
  by (simp add: step_def cycle_stream_def dl_branch_def cmd_of_def gbi_opcodes Let_def)

lemma cycle_step_B: "step cycle_stream 0x2000 g = Continue 0x1000 g"
  by (simp add: step_def cycle_stream_def dl_branch_def cmd_of_def gbi_opcodes Let_def)

lemma cycle_steps:
  "steps cycle_stream n 0x1000 g = Continue (if even n then 0x1000 else 0x2000) g
   \<and> steps cycle_stream n 0x2000 g = Continue (if even n then 0x2000 else 0x1000) g"
  by (induction n) (auto simp: cycle_step_A cycle_step_B)

lemma cycle_walk: "walk cycle_stream 0x1000 g = None"
proof (cases "walk cycle_stream 0x1000 g")
  case None
  then show ?thesis .
next
  case (Some r)
  then obtain n where "steps cycle_stream n 0x1000 g = Return r"
    using walk_Some_steps by blast
  then show ?thesis
    using cycle_steps [of n g] by simp
qed

lemma cycle_cmds:
  "cmd_of (cycle_stream 0x1000) = G_DL" "w1 (cycle_stream 0x1000) = 0x2000"
  "cmd_of (cycle_stream 0x2000) = G_DL" "w1 (cycle_stream 0x2000) = 0x1000"
  by (simp_all add: cycle_stream_def dl_branch_def cmd_of_def gbi_opcodes)

lemma walk_rec_cycle:
  assumes "walk_rec mem dl = Some u"
  shows "\<not> (mem = cycle_stream \<and> (dl = 0x1000 \<or> dl = 0x2000))"
proof (rule walk_rec.raw_induct
    [where P = "\<lambda>mem dl u. \<not> (mem = cycle_stream \<and> (dl = 0x1000 \<or> dl = 0x2000))", OF _ assms],
    goal_cases)
  case (1 walk' mem dl u)
  show ?case
  proof
    assume c: "mem = cycle_stream \<and> (dl = 0x1000 \<or> dl = 0x2000)"
    then have "(\<exists>v. walk' cycle_stream 0x2000 = Some v) \<or> (\<exists>v. walk' cycle_stream 0x1000 = Some v)"
      using 1(2) by (auto simp: cycle_cmds gbi_opcodes split: option.splits Option.bind_splits)
    with 1(1) show False
      by blast
  qed
qed

lemma cycle_walk_rec: "walk_rec cycle_stream 0x1000 = None"
  using walk_rec_cycle [of cycle_stream "0x1000"]
  by (cases "walk_rec cycle_stream 0x1000") simp_all

text \<open>
  C1, as stated, fails: on the mutual branches A -> B -> A (A at 0x1000, B at 0x2000)
  the explicit-stack walker, started from the boot state, never returns, and neither
  does the recursive walker. Neither loop has an instruction counter.
\<close>

theorem process_cycle_never_returns:
  "nsp_process_display_list cycle_stream 0x1000 boot = None
   \<and> nsp_process_display_list_rec cycle_stream 0x1000 = None"
  by (simp add: nsp_process_display_list_def nsp_process_display_list_rec_def cycle_walk
      cycle_walk_rec)

text \<open>
  C1, amended. A null root returns at once with the globals untouched. For a non-null
  root the walker returns exactly when some finite number of iterations, started with
  an empty call stack, reaches a \<^verbatim>\<open>return\<close>; the result is then the globals at that
  point. An iteration returns only on an end command for which \<^verbatim>\<open>dl_pop\<close> gives the
  null pointer. No bound on the number of iterations is enforced.
\<close>

theorem process_returns_iff:
  "nsp_process_display_list mem 0 g = Some g
   \<and> (dl \<noteq> 0 \<longrightarrow>
        (nsp_process_display_list mem dl g = Some g')
          = (\<exists>n. steps mem n dl (g\<lparr>dl_stack_top := 0\<rparr>) = Return g'))
   \<and> (step mem e h = Return h' \<longrightarrow> cmd_of (mem e) = G_ENDDL \<and> fst (dl_pop h) = 0)"
  using step_Return_enddl [of mem e h h']
  by (simp add: nsp_process_display_list_def walk_Some_iff)

theorem process_returns_iff_witness:
  "nsp_process_display_list end_stream 0 boot = Some boot
   \<and> (0x100 :: ptr) \<noteq> 0
   \<and> nsp_process_display_list end_stream 0x100 boot = Some boot
   \<and> step end_stream 0x100 boot = Return boot
   \<and> cmd_of (end_stream 0x100) = G_ENDDL \<and> fst (dl_pop boot) = 0"
proof -
  have s: "step end_stream 0x100 boot = Return boot"
    by (simp add: step_def end_stream_def gSPEndDisplayList_def cmd_of_def gbi_opcodes
        Let_def dl_pop_def boot_def)
  then have "steps end_stream (Suc 0) 0x100 (boot\<lparr>dl_stack_top := 0\<rparr>) = Return boot"
    by simp
  then have "\<exists>n. steps end_stream n 0x100 (boot\<lparr>dl_stack_top := 0\<rparr>) = Return boot"
    by blast
  then show ?thesis
    using process_returns_iff [of end_stream boot "0x100" boot "0x100" boot boot] s by simp
qed

subsection \<open>Render commands\<close>

lemma render_stream_steps:
  "step render_stream 0x100 g = Continue 0x108 g"
  "step render_stream 0x108 g = Continue 0x110 g"
  "step render_stream 0x110 boot = Return boot"
  by (simp_all add: render_stream_def stream_eval boot_def)

text \<open>
  C2, as stated, fails: on \<^verbatim>\<open>[RENDER(a), RENDER(b), END]\<close> the walker returns with
  nothing handed to the renderer back end (not the two commands a, b). The render cases
  of the switch only \<^verbatim>\<open>break\<close>.
\<close>

theorem render_stream_submits_nothing:
  "map_option gfx_submitted (nsp_process_display_list render_stream 0x100 boot) = Some []
   \<and> map_option gfx_submitted (nsp_process_display_list render_stream 0x100 boot)
       \<noteq> Some [gSP1Triangle 0 1 2 0, gSPVertex 0x2000 3 0]"
proof -
  have "steps render_stream 3 0x100 boot = Return boot"
    by (simp add: numeral_3_eq_3 render_stream_steps)
  then have "walk render_stream 0x100 boot = Some boot"
    by (rule steps_Return_walk)
  then have "nsp_process_display_list render_stream 0x100 boot = Some boot"
    by (simp add: nsp_process_display_list_def)
  then show ?thesis
    by (simp add: boot_def)
qed

text \<open>
  C2, amended. On a non-null stream \<^verbatim>\<open>[RENDER(a), RENDER(b), END]\<close> the walker, with
  the call stack emptied at entry, reads a, then b, then the end command, and returns on
  that third iteration; the globals it returns are the ones it was given with the stack
  index at zero, so nothing reaches the renderer back end. In general a render-bearing
  command only moves the cursor one command on and changes no state.
\<close>

theorem render_commands_only_advance:
  assumes "dl \<noteq> 0"
    and "cmd_of (mem dl) \<in> set render_cmds"
    and "cmd_of (mem (dl + 8)) \<in> set render_cmds"
    and "cmd_of (mem (dl + 16)) = G_ENDDL"
  shows "visited mem 3 dl (g\<lparr>dl_stack_top := 0\<rparr>) = [dl, dl + 8, dl + 16]
     \<and> steps mem 2 dl (g\<lparr>dl_stack_top := 0\<rparr>) = Continue (dl + 16) (g\<lparr>dl_stack_top := 0\<rparr>)
     \<and> nsp_process_display_list mem dl g = Some (g\<lparr>dl_stack_top := 0\<rparr>)
     \<and> (\<forall>h. step mem dl h = Continue (dl + 8) h)"
proof -
  let ?g = "g\<lparr>dl_stack_top := 0\<rparr>"
  have a: "step mem dl h = Continue (dl + 8) h" for h
    using assms(2) by (rule step_render)
  have b: "step mem (dl + 8) h = Continue (dl + 16) h" for h
    using step_render [of mem "dl + 8" h] assms(3) by simp
  have e: "step mem (dl + 16) ?g = Return ?g"
    using assms(4) by (simp add: step_enddl_empty)
  have v: "visited mem 3 dl ?g = [dl, dl + 8, dl + 16]"
    by (simp add: numeral_3_eq_3 a b e)
  have t: "steps mem 2 dl ?g = Continue (dl + 16) ?g"
    by (simp add: numeral_2_eq_2 a b)
  have "steps mem 3 dl ?g = Return ?g"
    by (simp add: numeral_3_eq_3 a b e)
  then have "walk mem dl ?g = Some ?g"
    by (rule steps_Return_walk)
  then have "nsp_process_display_list mem dl g = Some ?g"
    using assms(1) by (simp add: nsp_process_display_list_def)
  with v t a show ?thesis
    by blast
qed

theorem render_commands_only_advance_witness:
  "visited render_stream 3 0x100 boot = [0x100, 0x108, 0x110]
   \<and> nsp_process_display_list render_stream 0x100 boot = Some boot"
proof -
  have "(0x100 :: ptr) \<noteq> 0"
    by simp
  moreover have "cmd_of (render_stream 0x100) \<in> set render_cmds"
    by (simp add: render_stream_def stream_eval)
  moreover have "cmd_of (render_stream (0x100 + 8)) \<in> set render_cmds"
    by (simp add: render_stream_def stream_eval)
  moreover have "cmd_of (render_stream (0x100 + 16)) = G_ENDDL"
    by (simp add: render_stream_def stream_eval)
  ultimately show ?thesis
    using render_commands_only_advance [of "0x100" render_stream boot] by simp
qed

subsection \<open>Segment-set commands\<close>

lemma segment_stream_steps:
  "step segment_stream 0x100 g = Continue 0x108 g"
  "step segment_stream 0x108 boot = Return boot"
  by (simp_all add: segment_stream_def stream_eval boot_def)

lemma gSPSegment_skipped:
  "step (mem(dl := gSPSegment seg base)) dl g = Continue (dl + 8) g"
  by (simp add: step_def Let_def gSPSegment_def cmd_of_def gbi_opcodes)

lemma walker_sets_segment:
  "segment_set_id (mem dl) = Some i \<Longrightarrow>
   step mem dl g = Continue (dl + 8) (g\<lparr>nsp_segments := (nsp_segments g)(i := w1 (mem dl))\<rparr>)"
  by (simp add: step_def Let_def segment_set_id_def nsp_set_segment_def gbi_opcodes
      split: if_splits)

text \<open>
  C3 at its failing input. The command written by \<^verbatim>\<open>gSPSegment(pkt, 1, 0x1000)\<close> holds
  neither the index \<^verbatim>\<open>G_MW_SEGMENT\<close> nor the segment id, so the walker reads it as a
  \<^verbatim>\<open>G_MOVEMEM\<close> of another kind and skips it: after the stream, started from the boot
  state, table entry 1 is still 0 and not 0x1000.
\<close>

theorem gSPSegment_not_forwarded:
  "map_option (\<lambda>g. nsp_segments g 1) (nsp_process_display_list segment_stream 0x100 boot)
     = Some 0"
proof -
  have "steps segment_stream 2 0x100 boot = Return boot"
    by (simp add: numeral_2_eq_2 segment_stream_steps)
  then have "walk segment_stream 0x100 boot = Some boot"
    by (rule steps_Return_walk)
  then have "nsp_process_display_list segment_stream 0x100 boot = Some boot"
    by (simp add: nsp_process_display_list_def)
  then show ?thesis
    by (simp add: boot_def)
qed

subsection \<open>Call and return\<close>

lemma call_then_return:
  assumes par: "cmd_of (mem p) = G_DL" "w0 (mem p) AND 0x00FF0000 \<noteq> 0x00010000"
      "w1 (mem p) = c"
    and nz: "c \<noteq> 0" "p + 8 \<noteq> 0"
    and y: "cmd_of (mem (p + 8)) \<in> set render_cmds"
    and pe: "cmd_of (mem (p + 16)) = G_ENDDL"
    and x: "cmd_of (mem c) \<in> set render_cmds"
    and ce: "cmd_of (mem (c + 8)) = G_ENDDL"
    and len: "length (dl_stack g) = 16" and top: "dl_stack_top g = 0"
  shows "visited mem 5 p g = [p, c, c + 8, p + 8, p + 16]"
    and "steps mem 5 p g = Return (g\<lparr>dl_stack := (dl_stack g)[0 := p + 8]\<rparr>)"
proof -
  let ?g1 = "dl_push (p + 8) g"
  let ?g2 = "g\<lparr>dl_stack := (dl_stack g)[0 := p + 8]\<rparr>"
  have s1: "step mem p g = Continue c ?g1"
    using par nz by (simp add: step_call)
  have s2: "step mem c ?g1 = Continue (c + 8) ?g1"
    using x by (simp add: step_render)
  have s3: "step mem (c + 8) ?g1 = Continue (p + 8) ?g2"
    using step_enddl_after_push [of mem "c + 8" "p + 8" g] ce nz len top
    by (simp add: DL_STACK_SIZE_def)
  have s4: "step mem (p + 8) ?g2 = Continue (p + 8 + 8) ?g2"
    using y by (simp add: step_render)
  have s5: "step mem (p + 16) ?g2 = Return ?g2"
    using pe top by (simp add: step_enddl_empty)
  have e: "p + 8 + 8 = p + 16"
    by simp
  show "visited mem 5 p g = [p, c, c + 8, p + 8, p + 16]"
    by (simp add: eval_nat_numeral s1 s2 s3 s4 s5 e)
  show "steps mem 5 p g = Return ?g2"
    by (simp add: eval_nat_numeral s1 s2 s3 s4 s5 e)
qed

text \<open>
  C4, as stated, fails. With sixteen cursors saved and table entry 1 set to 0x1000, a
  call whose target word is the segmented address 0x01000020 pushes nothing (the globals
  are unchanged) and moves the cursor to the raw word 0x01000020, while the resolver
  maps that word to 0x1020.
\<close>

theorem call_full_stack_raw_target:
  "step call_stream 0x100 deep_globals = Continue 0x01000020 deep_globals
   \<and> nsp_segmented_to_virtual (nsp_segments deep_globals) 0x01000020 = 0x1020"
  by (simp add: call_stream_def deep_globals_def stream_eval nsp_segmented_to_virtual_def)

text \<open>
  C4, amended. A call (a \<^verbatim>\<open>G_DL\<close> command without the branch flag) at \<open>p\<close> whose
  target word \<open>c\<close> is not null, read with fewer than sixteen cursors saved, stores
  \<open>p + 8\<close> (the command after the call) in the next free stack slot, raises the stack
  index by one and moves the cursor to the raw word \<open>c\<close>, with no segment resolution.
  An end command read in that state resumes at \<open>p + 8\<close> with the stack index back at
  its old value (\<open>p + 8\<close> not being the null pointer). For the parent
  \<^verbatim>\<open>[CALL(child), RENDER(y), END]\<close> with child \<^verbatim>\<open>[RENDER(x), END]\<close> the commands are
  read in the order call, x, child end, y, parent end, and the walker returns.
\<close>

theorem call_pushes_return_and_resumes:
  assumes "cmd_of (mem p) = G_DL"
    and "w0 (mem p) AND 0x00FF0000 \<noteq> 0x00010000"
    and "w1 (mem p) = c" and "c \<noteq> 0" and "p \<noteq> 0" and "p + 8 \<noteq> 0"
    and "0 \<le> dl_stack_top g" and "dl_stack_top g < DL_STACK_SIZE"
    and "length (dl_stack g) = 16"
  shows "step mem p g = Continue c (dl_push (p + 8) g)
     \<and> dl_stack_top (dl_push (p + 8) g) = dl_stack_top g + 1
     \<and> dl_stack (dl_push (p + 8) g) ! nat (dl_stack_top g) = p + 8
     \<and> (\<forall>e. cmd_of (mem e) = G_ENDDL \<longrightarrow>
           step mem e (dl_push (p + 8) g)
             = Continue (p + 8) (g\<lparr>dl_stack := (dl_stack g)[nat (dl_stack_top g) := p + 8]\<rparr>))
     \<and> (cmd_of (mem c) \<in> set render_cmds \<and> cmd_of (mem (c + 8)) = G_ENDDL
          \<and> cmd_of (mem (p + 8)) \<in> set render_cmds \<and> cmd_of (mem (p + 16)) = G_ENDDL \<longrightarrow>
           visited mem 5 p (g\<lparr>dl_stack_top := 0\<rparr>) = [p, c, c + 8, p + 8, p + 16]
           \<and> nsp_process_display_list mem p g
               = Some (g\<lparr>dl_stack := (dl_stack g)[0 := p + 8], dl_stack_top := 0\<rparr>))"
proof (intro conjI allI impI)
  show "step mem p g = Continue c (dl_push (p + 8) g)"
    using assms(1-4) by (simp add: step_call)
  show "dl_stack_top (dl_push (p + 8) g) = dl_stack_top g + 1"
    using assms(7-9) by (rule dl_push_below)
  show "dl_stack (dl_push (p + 8) g) ! nat (dl_stack_top g) = p + 8"
    using assms(7-9) by (rule dl_push_below)
  show "step mem e (dl_push (p + 8) g)
          = Continue (p + 8) (g\<lparr>dl_stack := (dl_stack g)[nat (dl_stack_top g) := p + 8]\<rparr>)"
    if "cmd_of (mem e) = G_ENDDL" for e
    using that assms(6-9) by (rule step_enddl_after_push)
next
  let ?g = "g\<lparr>dl_stack_top := 0\<rparr>"
  assume ex: "cmd_of (mem c) \<in> set render_cmds \<and> cmd_of (mem (c + 8)) = G_ENDDL
          \<and> cmd_of (mem (p + 8)) \<in> set render_cmds \<and> cmd_of (mem (p + 16)) = G_ENDDL"
  have len: "length (dl_stack ?g) = 16" and top: "dl_stack_top ?g = 0"
    using assms(9) by simp_all
  show "visited mem 5 p ?g = [p, c, c + 8, p + 8, p + 16]"
    using call_then_return(1) [of mem p c ?g] assms(1-4) assms(6) len top ex by blast
  have "steps mem 5 p ?g = Return (?g\<lparr>dl_stack := (dl_stack ?g)[0 := p + 8]\<rparr>)"
    using call_then_return(2) [of mem p c ?g] assms(1-4) assms(6) len top ex by blast
  then have "walk mem p ?g = Some (?g\<lparr>dl_stack := (dl_stack ?g)[0 := p + 8]\<rparr>)"
    by (rule steps_Return_walk)
  then show "nsp_process_display_list mem p g
               = Some (g\<lparr>dl_stack := (dl_stack g)[0 := p + 8], dl_stack_top := 0\<rparr>)"
    using assms(5) by (simp add: nsp_process_display_list_def)
qed

theorem call_pushes_return_and_resumes_witness:
  "step nested_stream 0x100 boot = Continue 0x200 (dl_push 0x108 boot)
   \<and> step nested_stream 0x208 (dl_push 0x108 boot)
       = Continue 0x108 (boot\<lparr>dl_stack := (dl_stack boot)[0 := 0x108]\<rparr>)
   \<and> visited nested_stream 5 0x100 boot = [0x100, 0x200, 0x208, 0x108, 0x110]
   \<and> nsp_process_display_list nested_stream 0x100 boot
       = Some (boot\<lparr>dl_stack := (dl_stack boot)[0 := 0x108], dl_stack_top := 0\<rparr>)"
proof -
  have h: "cmd_of (nested_stream 0x100) = G_DL"
    "w0 (nested_stream 0x100) AND 0x00FF0000 \<noteq> 0x00010000"
    "w1 (nested_stream 0x100) = 0x200" "(0x200 :: ptr) \<noteq> 0" "(0x100 :: ptr) \<noteq> 0"
    "(0x100 :: ptr) + 8 \<noteq> 0"
    "0 \<le> dl_stack_top boot" "dl_stack_top boot < DL_STACK_SIZE" "length (dl_stack boot) = 16"
    by (simp_all add: nested_stream_def stream_eval boot_def)
  have r: "cmd_of (nested_stream 0x200) \<in> set render_cmds"
    "cmd_of (nested_stream (0x200 + 8)) = G_ENDDL"
    "cmd_of (nested_stream (0x100 + 8)) \<in> set render_cmds"
    "cmd_of (nested_stream (0x100 + 16)) = G_ENDDL"
    by (simp_all add: nested_stream_def stream_eval)
  have t: "nat (dl_stack_top boot) = 0"
    by (simp add: boot_def)
  have e: "cmd_of (nested_stream 0x208) = G_ENDDL"
    using r(2) by simp
  have "step nested_stream 0x100 boot = Continue 0x200 (dl_push 0x108 boot)
     \<and> (\<forall>e. cmd_of (nested_stream e) = G_ENDDL \<longrightarrow>
           step nested_stream e (dl_push 0x108 boot)
             = Continue 0x108 (boot\<lparr>dl_stack := (dl_stack boot)[0 := 0x108]\<rparr>))
     \<and> visited nested_stream 5 0x100 boot = [0x100, 0x200, 0x208, 0x108, 0x110]
     \<and> nsp_process_display_list nested_stream 0x100 boot
         = Some (boot\<lparr>dl_stack := (dl_stack boot)[0 := 0x108], dl_stack_top := 0\<rparr>)"
    using call_pushes_return_and_resumes [of nested_stream "0x100" "0x200" boot] h r t by simp
  with e show ?thesis
    by blast
qed

subsection \<open>The branch-list builder\<close>

lemma branch_list_stream_steps:
  "step branch_list_stream 0x100 boot = Continue 0x200 (dl_push 0x108 boot)"
  "step branch_list_stream 0x200 (dl_push 0x108 boot)
     = Continue 0x108 (boot\<lparr>dl_stack := (dl_stack boot)[0 := 0x108]\<rparr>)"
  "step branch_list_stream 0x108 g = Continue 0x110 g"
  "step branch_list_stream 0x110 (boot\<lparr>dl_stack := (dl_stack boot)[0 := 0x108]\<rparr>)
     = Return (boot\<lparr>dl_stack := (dl_stack boot)[0 := 0x108]\<rparr>)"
  by (simp_all add: branch_list_stream_def stream_eval boot_def)

lemma gSPBranchList_pushes:
  "child \<noteq> 0 \<Longrightarrow>
   step (mem(dl := gSPBranchList child)) dl g = Continue child (dl_push (dl + 8) g)"
  by (simp add: step_def Let_def gSPBranchList_def gSPDisplayList_def cmd_of_def gbi_opcodes)

text \<open>
  C5 at its failing input. The command written by \<^verbatim>\<open>gSPBranchList(pkt, child)\<close> is the
  one \<^verbatim>\<open>gSPDisplayList\<close> writes, without the branch flag: the walker saves the return
  cursor 0x108 (the stack index becomes 1) and, after the child's end command, goes on
  at 0x108 and 0x110 in the origin stream.
\<close>

theorem gSPBranchList_runs_as_call:
  "step branch_list_stream 0x100 boot = Continue 0x200 (dl_push 0x108 boot)
   \<and> dl_stack_top (dl_push 0x108 boot) = 1
   \<and> visited branch_list_stream 4 0x100 boot = [0x100, 0x200, 0x108, 0x110]"
proof (intro conjI)
  show "step branch_list_stream 0x100 boot = Continue 0x200 (dl_push 0x108 boot)"
    by (rule branch_list_stream_steps)
  show "dl_stack_top (dl_push 0x108 boot) = 1"
    by (simp add: dl_push_def boot_def DL_STACK_SIZE_def)
  show "visited branch_list_stream 4 0x100 boot = [0x100, 0x200, 0x108, 0x110]"
    by (simp add: eval_nat_numeral branch_list_stream_steps)
qed

subsection \<open>Branches\<close>

lemma null_branch_steps:
  "step null_branch_stream 0x100 g = Continue 0x108 g"
  "step null_branch_stream 0x108 g = Continue 0x110 g"
  "step null_branch_stream 0x110 boot = Return boot"
  by (simp_all add: null_branch_stream_def stream_eval boot_def)

text \<open>
  C6, as stated, fails for a null target: the walker skips a branch whose target word is
  0 and goes on with the next command of the branching stream.
\<close>

theorem null_branch_falls_through:
  "step null_branch_stream 0x100 boot = Continue 0x108 boot
   \<and> visited null_branch_stream 3 0x100 boot = [0x100, 0x108, 0x110]"
  by (simp add: numeral_3_eq_3 null_branch_steps)

text \<open>
  C6, amended. A branch (a \<^verbatim>\<open>G_DL\<close> command with the branch flag) whose target word is
  not null moves the cursor to the target and leaves every global as it was: nothing is
  pushed, so no end command can come back to the branching stream through it. The
  walker returns only on an end command. If, some iterations after the branch, it reads
  an end command with the call stack empty, it returns there; in particular, when the
  stack is empty at the branch and the child is \<open>k\<close> commands that are neither end nor
  \<^verbatim>\<open>G_DL\<close> followed by an end command, the walker is still running when it reaches that
  end command (after the branch and the \<open>k\<close> commands) and returns on it.
\<close>

theorem branch_saves_nothing_halts_at_child_end:
  assumes "cmd_of (mem dl) = G_DL"
    and "w0 (mem dl) AND 0x00FF0000 = 0x00010000"
    and "w1 (mem dl) = child" and "child \<noteq> 0"
  shows "step mem dl g = Continue child g
     \<and> (\<forall>e h h'. step mem e h = Return h' \<longrightarrow> cmd_of (mem e) = G_ENDDL)
     \<and> (\<forall>n e h. steps mem n child g = Continue e h \<and> cmd_of (mem e) = G_ENDDL
                  \<and> dl_stack_top h \<le> 0 \<longrightarrow>
           steps mem (Suc (Suc n)) dl g = Return h \<and> walk mem dl g = Some h)
     \<and> (dl_stack_top g = 0
          \<and> (\<forall>i<k. cmd_of (mem (child + 8 * of_nat i)) \<noteq> G_ENDDL
                    \<and> cmd_of (mem (child + 8 * of_nat i)) \<noteq> G_DL)
          \<and> cmd_of (mem (child + 8 * of_nat k)) = G_ENDDL \<longrightarrow>
         (\<exists>g'. steps mem (Suc k) dl g = Continue (child + 8 * of_nat k) g'
              \<and> steps mem (Suc (Suc k)) dl g = Return g'
              \<and> walk mem dl g = Some g'
              \<and> dl_stack g' = dl_stack g \<and> dl_stack_top g' = 0))"
proof -
  have b: "step mem dl g = Continue child g"
    using assms by (simp add: step_branch)
  have only_end: "cmd_of (mem e) = G_ENDDL" if "step mem e h = Return h'" for e h h'
    using step_Return_enddl [of mem e h h'] that by blast
  have at_end: "steps mem (Suc (Suc n)) dl g = Return h \<and> walk mem dl g = Some h"
    if r: "steps mem n child g = Continue e h" and e: "cmd_of (mem e) = G_ENDDL"
      and t: "dl_stack_top h \<le> 0" for n e h
  proof -
    have "step mem e h = Return h"
      using e t by (rule step_enddl_empty)
    then have "steps mem (n + Suc 0) child g = Return h"
      unfolding steps_add r by simp
    then have s: "steps mem (Suc (Suc n)) dl g = Return h"
      using b by simp
    then have "walk mem dl g = Some h"
      by (rule steps_Return_walk)
    with s show ?thesis
      by blast
  qed
  have line: "\<exists>g'. steps mem (Suc k) dl g = Continue (child + 8 * of_nat k) g'
              \<and> steps mem (Suc (Suc k)) dl g = Return g'
              \<and> walk mem dl g = Some g'
              \<and> dl_stack g' = dl_stack g \<and> dl_stack_top g' = 0"
    if h: "dl_stack_top g = 0
          \<and> (\<forall>i<k. cmd_of (mem (child + 8 * of_nat i)) \<noteq> G_ENDDL
                    \<and> cmd_of (mem (child + 8 * of_nat i)) \<noteq> G_DL)
          \<and> cmd_of (mem (child + 8 * of_nat k)) = G_ENDDL"
  proof -
    from h obtain g' where g': "steps mem k child g = Continue (child + 8 * of_nat k) g'"
        "dl_stack g' = dl_stack g" "dl_stack_top g' = dl_stack_top g"
      using plain_run [of k mem child g] by blast
    have s1: "steps mem (Suc k) dl g = Continue (child + 8 * of_nat k) g'"
      using b g'(1) by simp
    have "steps mem (Suc (Suc k)) dl g = Return g' \<and> walk mem dl g = Some g'"
      using at_end [of k "child + 8 * of_nat k" g'] g' h by simp
    with s1 g' h show ?thesis
      by auto
  qed
  from b only_end at_end line show ?thesis
    by blast
qed

theorem branch_saves_nothing_halts_at_child_end_witness:
  "step branch_stream 0x100 boot = Continue 0x200 boot
   \<and> steps branch_stream (Suc (Suc (Suc 0))) 0x100 boot = Return boot
   \<and> walk branch_stream 0x100 boot = Some boot
   \<and> (\<exists>g'. steps branch_stream (Suc (Suc 0)) 0x100 boot = Continue 0x208 g'
          \<and> steps branch_stream (Suc (Suc (Suc 0))) 0x100 boot = Return g'
          \<and> walk branch_stream 0x100 boot = Some g'
          \<and> dl_stack g' = dl_stack boot \<and> dl_stack_top g' = 0)"
proof -
  have h: "cmd_of (branch_stream 0x100) = G_DL"
    "w0 (branch_stream 0x100) AND 0x00FF0000 = 0x00010000"
    "w1 (branch_stream 0x100) = 0x200" "(0x200 :: ptr) \<noteq> 0"
    by (simp_all add: branch_stream_def stream_eval)
  have k: "dl_stack_top boot = 0"
    "\<forall>i<Suc 0. cmd_of (branch_stream (0x200 + 8 * of_nat i)) \<noteq> G_ENDDL
               \<and> cmd_of (branch_stream (0x200 + 8 * of_nat i)) \<noteq> G_DL"
    "cmd_of (branch_stream (0x200 + 8 * of_nat (Suc 0))) = G_ENDDL"
    by (simp_all add: branch_stream_def stream_eval boot_def)
  have e: "(0x200 :: ptr) + 8 * of_nat (Suc 0) = 0x208"
    by simp
  have "step branch_stream 0x200 boot = Continue 0x208 boot"
    by (simp add: branch_stream_def stream_eval)
  then have n: "steps branch_stream (Suc 0) 0x200 boot = Continue 0x208 boot
      \<and> cmd_of (branch_stream 0x208) = G_ENDDL \<and> dl_stack_top boot \<le> 0"
    by (simp add: branch_stream_def stream_eval boot_def)
  show ?thesis
    using branch_saves_nothing_halts_at_child_end [of branch_stream "0x100" "0x200" boot "Suc 0"]
      h k n
    unfolding e by blast
qed

subsection \<open>Bounds of the call stack\<close>








subsection \<open>Persistence of the segment table\<close>

text \<open>
  C9. If an invocation returns, every table entry \<open>i\<close> that no command read during the
  invocation overwrites (no visited command is a segment-set command for \<open>i\<close>) holds at
  return the value it held at entry. The walker never clears the table.
\<close>

theorem segment_table_persists:
  assumes "nsp_process_display_list mem dl g = Some g'"
    and "\<forall>n. \<forall>p \<in> set (visited mem n dl (g\<lparr>dl_stack_top := 0\<rparr>)).
            segment_set_id (mem p) \<noteq> Some i"
  shows "nsp_segments g' i = nsp_segments g i"
proof (cases "dl = 0")
  case True
  with assms(1) show ?thesis
    by (simp add: nsp_process_display_list_def)
next
  case False
  with assms(1) have "walk mem dl (g\<lparr>dl_stack_top := 0\<rparr>) = Some g'"
    by (simp add: nsp_process_display_list_def)
  then obtain n where n: "steps mem n dl (g\<lparr>dl_stack_top := 0\<rparr>) = Return g'"
    using walk_Some_steps by blast
  from assms(2) have "\<forall>p \<in> set (visited mem n dl (g\<lparr>dl_stack_top := 0\<rparr>)).
      segment_set_id (mem p) \<noteq> Some i"
    by blast
  from steps_frame [OF this] n show ?thesis
    by (simp add: globals_of_def)
qed

lemma set_stream_steps:
  "step set_stream 0x100 seg1_globals
     = Continue 0x108 (seg1_globals\<lparr>nsp_segments := (nsp_segments seg1_globals)(2 := 0x4000)\<rparr>)"
  "step set_stream 0x108 (seg1_globals\<lparr>nsp_segments := (nsp_segments seg1_globals)(2 := 0x4000)\<rparr>)
     = Return (seg1_globals\<lparr>nsp_segments := (nsp_segments seg1_globals)(2 := 0x4000)\<rparr>)"
  by (simp_all add: set_stream_def seg1_globals_def stream_eval boot_def)

lemma set_stream_visited:
  "set (visited set_stream n 0x100 seg1_globals) \<subseteq> {0x100, 0x108}"
proof (cases n)
  case 0
  then show ?thesis by simp
next
  case (Suc m)
  then show ?thesis
    by (cases m) (simp_all add: set_stream_steps)
qed

theorem segment_table_persists_witness:
  "nsp_process_display_list set_stream 0x100 seg1_globals
     = Some (seg1_globals\<lparr>nsp_segments := (nsp_segments seg1_globals)(2 := 0x4000)\<rparr>)
   \<and> nsp_segments (seg1_globals\<lparr>nsp_segments := (nsp_segments seg1_globals)(2 := 0x4000)\<rparr>) 1
       = 0x1000"
proof -
  let ?g' = "seg1_globals\<lparr>nsp_segments := (nsp_segments seg1_globals)(2 := 0x4000)\<rparr>"
  have top: "seg1_globals\<lparr>dl_stack_top := 0\<rparr> = seg1_globals"
    by (simp add: seg1_globals_def boot_def)
  have "steps set_stream 2 0x100 seg1_globals = Return ?g'"
    by (simp add: numeral_2_eq_2 set_stream_steps)
  then have "walk set_stream 0x100 seg1_globals = Some ?g'"
    by (rule steps_Return_walk)
  then have run: "nsp_process_display_list set_stream 0x100 seg1_globals = Some ?g'"
    by (simp add: nsp_process_display_list_def top)
  have ids: "segment_set_id (set_stream 0x100) \<noteq> Some 1"
    "segment_set_id (set_stream 0x108) \<noteq> Some 1"
    by (simp_all add: set_stream_def segment_set_id_def stream_eval)
  have "\<forall>n. \<forall>p \<in> set (visited set_stream n 0x100 (seg1_globals\<lparr>dl_stack_top := 0\<rparr>)).
            segment_set_id (set_stream p) \<noteq> Some 1"
    unfolding top using set_stream_visited ids by blast
  from segment_table_persists [OF run this] run show ?thesis
    by (simp add: seg1_globals_def nsp_set_segment_def)
qed

subsection \<open>Address resolution\<close>

lemma and_0xF_take_bit: "(x :: 32 word) AND 0xF = take_bit 4 x"
proof -
  have "(0xF :: 32 word) = mask 4"
    by (simp add: mask_eq_exp_minus_1)
  then show ?thesis
    by (simp add: take_bit_eq_mask)
qed

lemma and_0xFFFFFF_take_bit: "(x :: 32 word) AND 0x00FFFFFF = take_bit 24 x"
proof -
  have "(0x00FFFFFF :: 32 word) = mask 24"
    by (simp add: mask_eq_exp_minus_1)
  then show ?thesis
    by (simp add: take_bit_eq_mask)
qed

lemma unat_segment_field:
  "unat (ucast (drop_bit 24 (addr :: 32 word) AND 0xF) :: 4 word) = unat addr div 2 ^ 24 mod 16"
  unfolding and_0xF_take_bit
  by (simp add: unsigned_ucast_eq unsigned_take_bit_eq unsigned_drop_bit_eq take_bit_eq_mod
      drop_bit_eq_div unat_mod unat_div)

lemma unat_offset_field:
  "unat ((addr :: 32 word) AND 0x00FFFFFF) = unat addr mod 2 ^ 24"
  unfolding and_0xFFFFFF_take_bit
  by (simp add: unsigned_take_bit_eq take_bit_eq_mod unat_mod)

lemma segment_field_of_nat:
  "(ucast (drop_bit 24 (addr :: 32 word) AND 0xF) :: 4 word) = of_nat (unat addr div 2 ^ 24 mod 16)"
proof -
  have "(ucast (drop_bit 24 addr AND 0xF) :: 4 word)
      = of_nat (unat (ucast (drop_bit 24 addr AND 0xF) :: 4 word))"
    by simp
  then show ?thesis
    by (simp only: unat_segment_field)
qed

text \<open>
  C7. The resolver splits the encoded address into the segment id (bits 24..27, that is
  \<open>addr div 2^24 mod 16\<close>) and the 24-bit offset (\<open>addr mod 2^24\<close>); it returns the
  offset when the table entry is zero (unset) and entry plus offset (in 32-bit pointer
  arithmetic) otherwise. After \<open>set(1, 0x1000)\<close> the encoded address with segment 1
  and offset 0x20 resolves to 0x1020, and with entry 1 unset it resolves to 0x20. The
  resolver is a total function: it has no failure result.
\<close>

theorem resolve_segment_offset:
  "unat (nsp_segmented_to_virtual segs addr) =
     (if segs (of_nat (unat addr div 2 ^ 24 mod 16)) = 0 then unat addr mod 2 ^ 24
      else (unat (segs (of_nat (unat addr div 2 ^ 24 mod 16))) + unat addr mod 2 ^ 24)
             mod 2 ^ 32)
   \<and> nsp_segmented_to_virtual (nsp_set_segment 1 0x1000 segs) 0x01000020 = 0x1020
   \<and> (segs 1 = 0 \<longrightarrow> nsp_segmented_to_virtual segs 0x01000020 = 0x20)"
proof (intro conjI impI)
  show "unat (nsp_segmented_to_virtual segs addr) =
     (if segs (of_nat (unat addr div 2 ^ 24 mod 16)) = 0 then unat addr mod 2 ^ 24
      else (unat (segs (of_nat (unat addr div 2 ^ 24 mod 16))) + unat addr mod 2 ^ 24)
             mod 2 ^ 32)"
    unfolding nsp_segmented_to_virtual_def Let_def segment_field_of_nat
    by (simp add: unat_offset_field unat_word_ariths)
  show "nsp_segmented_to_virtual (nsp_set_segment 1 0x1000 segs) 0x01000020 = 0x1020"
    by (simp add: nsp_segmented_to_virtual_def nsp_set_segment_def Let_def)
  show "nsp_segmented_to_virtual segs 0x01000020 = 0x20" if "segs 1 = 0"
    using that by (simp add: nsp_segmented_to_virtual_def Let_def)
qed

theorem resolve_segment_offset_witness:
  "unat (nsp_segmented_to_virtual (\<lambda>_. 0) 0x01000020) = 0x20
   \<and> nsp_segmented_to_virtual (nsp_set_segment 1 0x1000 (\<lambda>_. 0)) 0x01000020 = 0x1020
   \<and> nsp_segmented_to_virtual (\<lambda>_. 0) 0x01000020 = 0x20"
  using resolve_segment_offset [of "\<lambda>_. 0" "0x01000020"] by simp

text \<open>
  C10. The resolver that returns the raw offset for a zero table entry and the resolver
  that always adds the entry give the same address, for every table and every encoded
  address.
\<close>

theorem resolvers_agree:
  "nsp_segmented_to_virtual segs addr = nsp_segmented_to_virtual_uncond segs addr"
  by (simp add: nsp_segmented_to_virtual_def nsp_segmented_to_virtual_uncond_def Let_def)

end
